theory Spec2Isabelle
  imports Complex_Main "HOL-Library.Char_ord" "HOL-Library.List_Lexorder"
begin

section \<open>Data model\<close>

text \<open>
  A cell of a pandas column is a missing marker (\<open>NaN\<close>, \<open>None\<close>, \<open>NaT\<close>), a number or a
  string. Numbers are exact rationals: the model idealises \<open>float64\<close> arithmetic. A
  timestamp is represented by its count of nanoseconds since the epoch, the value pandas
  stores for it.
\<close>

datatype cell = NA | Num rat | Str string

text \<open>Exceptions of the Python code, as values.\<close>

datatype error = KeyError | TypeError | ValueError | ZeroDivisionError

text \<open>
  A \<open>pd.Series\<close> as the helpers and the profiler see it: the kind character of its dtype
  (\<open>series.dtype.kind\<close>) and its values in row order.
\<close>

record series =
  kind :: char
  cells :: "cell list"

text \<open>
  A \<open>pd.DataFrame\<close>: the column labels in order and the rows, each row holding one cell
  per column.
\<close>

record dataframe =
  columns :: "string list"
  rows :: "cell list list"

definition wf_df :: "dataframe \<Rightarrow> bool" where
  "wf_df d \<longleftrightarrow> distinct (columns d) \<and> list_all (\<lambda>r. length r = length (columns d)) (rows d)"

text \<open>
  The two parsers of pandas the code relies on and whose grammar is outside the
  repository: the number a string denotes for \<open>pd.to_numeric\<close> and the timestamp
  (in epoch nanoseconds) a string denotes for \<open>pd.to_datetime\<close>; \<open>None\<close> is a string
  that does not parse.
\<close>

record pandas =
  num_of_str :: "string \<Rightarrow> rat option"
  date_of_str :: "string \<Rightarrow> int option"

subsection \<open>Column access\<close>

fun index_of :: "'a \<Rightarrow> 'a list \<Rightarrow> nat" where
  "index_of x [] = 0"
| "index_of x (y # ys) = (if x = y then 0 else Suc (index_of x ys))"

definition get_col :: "dataframe \<Rightarrow> string \<Rightarrow> cell list" where
  \<comment> \<open>\<open>df[col]\<close>\<close>
  "get_col d col = map (\<lambda>r. r ! index_of col (columns d)) (rows d)"

definition set_col :: "string \<Rightarrow> cell list \<Rightarrow> dataframe \<Rightarrow> dataframe" where
  \<comment> \<open>\<open>df[col] = values\<close>, for a column that exists and values aligned with the rows\<close>
  "set_col col vs d =
     d\<lparr>rows := map (\<lambda>(r, v). r[index_of col (columns d) := v]) (zip (rows d) vs)\<rparr>"

definition drop_col :: "string \<Rightarrow> dataframe \<Rightarrow> dataframe" where
  \<comment> \<open>\<open>df.drop(columns=[col])\<close>: every column carrying the label goes\<close>
  "drop_col col d =
     \<lparr>columns = filter (\<lambda>n. n \<noteq> col) (columns d),
      rows = map (\<lambda>r. map snd (filter (\<lambda>(n, _). n \<noteq> col) (zip (columns d) r))) (rows d)\<rparr>"

definition isna :: "cell \<Rightarrow> bool" where
  "isna c \<longleftrightarrow> c = NA"

definition isna_sum :: "cell list \<Rightarrow> nat" where
  \<comment> \<open>\<open>series.isna().sum()\<close>\<close>
  "isna_sum cs = length (filter isna cs)"

definition dropna :: "cell list \<Rightarrow> cell list" where
  \<comment> \<open>\<open>series.dropna()\<close>\<close>
  "dropna cs = filter (\<lambda>c. \<not> isna c) cs"

definition fillna :: "cell \<Rightarrow> cell list \<Rightarrow> cell list" where
  \<comment> \<open>\<open>series.fillna(v)\<close>; filling with \<open>NaN\<close> changes nothing\<close>
  "fillna v cs = map (\<lambda>c. if isna c then v else c) cs"

section \<open>helpers.py\<close>

subsection \<open>Statistics of a column\<close>

fun is_str :: "cell \<Rightarrow> bool" where
  "is_str (Str _) = True"
| "is_str _ = False"

fun num_values :: "cell list \<Rightarrow> rat list" where
  "num_values [] = []"
| "num_values (Num x # cs) = x # num_values cs"
| "num_values (_ # cs) = num_values cs"

definition quantile_sorted :: "rat \<Rightarrow> rat list \<Rightarrow> rat" where
  \<comment> \<open>linear interpolation between the two order statistics around \<open>q * (n - 1)\<close>\<close>
  "quantile_sorted q s =
     (let pos = q * of_nat (length s - 1);
          lo = nat \<lfloor>pos\<rfloor>;
          hi = nat \<lceil>pos\<rceil>
      in s ! lo + (s ! hi - s ! lo) * (pos - of_nat lo))"

definition quantile :: "rat \<Rightarrow> cell list \<Rightarrow> error + rat option" where
  \<comment> \<open>\<open>series.quantile(q)\<close>: missing values are skipped, no value left gives \<open>NaN\<close>
      (\<open>None\<close>), a string raises\<close>
  "quantile q cs =
     (if list_ex is_str cs then Inl TypeError
      else if num_values cs = [] then Inr None
      else Inr (Some (quantile_sorted q (sort (num_values cs)))))"

fun fsub :: "rat option \<Rightarrow> rat option \<Rightarrow> rat option" where
  "fsub (Some a) (Some b) = Some (a - b)"
| "fsub _ _ = None"

fun fadd :: "rat option \<Rightarrow> rat option \<Rightarrow> rat option" where
  "fadd (Some a) (Some b) = Some (a + b)"
| "fadd _ _ = None"

fun fmul :: "rat \<Rightarrow> rat option \<Rightarrow> rat option" where
  "fmul k (Some a) = Some (k * a)"
| "fmul k None = None"

definition calculate_iqr_bounds :: "cell list \<Rightarrow> error + (rat option \<times> rat option)" where
  "calculate_iqr_bounds cs =
     (case quantile (1 / 4) cs of
        Inl e \<Rightarrow> Inl e
      | Inr q1 \<Rightarrow>
          (case quantile (3 / 4) cs of
             Inl e \<Rightarrow> Inl e
           | Inr q3 \<Rightarrow>
               (let iqr = fsub q3 q1;
                    lower = fsub q1 (fmul (3 / 2) iqr);
                    upper = fadd q3 (fmul (3 / 2) iqr)
                in Inr (lower, upper))))"

text \<open>
  Comparisons of a cell with a float that may be \<open>NaN\<close> (\<open>None\<close>): a comparison with a
  missing cell or with \<open>NaN\<close> is false. A string cell never reaches them, the quantiles
  having raised before.
\<close>

fun cell_ge :: "cell \<Rightarrow> rat option \<Rightarrow> bool" where
  "cell_ge (Num v) (Some b) = (b \<le> v)"
| "cell_ge _ _ = False"

fun cell_le :: "cell \<Rightarrow> rat option \<Rightarrow> bool" where
  "cell_le (Num v) (Some b) = (v \<le> b)"
| "cell_le _ _ = False"

fun cell_lt :: "cell \<Rightarrow> rat option \<Rightarrow> bool" where
  "cell_lt (Num v) (Some b) = (v < b)"
| "cell_lt _ _ = False"

fun cell_gt :: "cell \<Rightarrow> rat option \<Rightarrow> bool" where
  "cell_gt (Num v) (Some b) = (b < v)"
| "cell_gt _ _ = False"

definition mean :: "cell list \<Rightarrow> error + cell" where
  \<comment> \<open>\<open>series.mean()\<close>: missing values are skipped, no value left gives \<open>NaN\<close>, a string
      raises\<close>
  "mean cs =
     (if list_ex is_str cs then Inl TypeError
      else if num_values cs = [] then Inr NA
      else Inr (Num (sum_list (num_values cs) / of_nat (length (num_values cs)))))"

definition median_sorted :: "rat list \<Rightarrow> rat" where
  "median_sorted s =
     (let n = length s
      in if odd n then s ! (n div 2) else (s ! (n div 2 - 1) + s ! (n div 2)) / 2)"

definition median :: "cell list \<Rightarrow> error + cell" where
  \<comment> \<open>\<open>series.median()\<close>\<close>
  "median cs =
     (if list_ex is_str cs then Inl TypeError
      else if num_values cs = [] then Inr NA
      else Inr (Num (median_sorted (sort (num_values cs)))))"

fun uniq :: "'a list \<Rightarrow> 'a list \<Rightarrow> 'a list" where
  \<comment> \<open>the values not seen before, in order of first appearance\<close>
  "uniq seen [] = []"
| "uniq seen (x # xs) = (if x \<in> set seen then uniq seen xs else x # uniq (x # seen) xs)"

fun str_values :: "cell list \<Rightarrow> string list" where
  "str_values [] = []"
| "str_values (Str s # cs) = s # str_values cs"
| "str_values (_ # cs) = str_values cs"

fun is_num :: "cell \<Rightarrow> bool" where
  "is_num (Num _) = True"
| "is_num _ = False"

definition sort_values :: "cell list \<Rightarrow> cell list" where
  \<comment> \<open>\<open>np.sort\<close> of the modes: numbers by value, strings lexicographically; values of
      mixed type do not compare and pandas then leaves the modes as they are\<close>
  "sort_values vs =
     (if list_all is_num vs then map Num (sort (num_values vs))
      else if list_all is_str vs then map Str (sort (str_values vs))
      else vs)"

definition max_count :: "cell list \<Rightarrow> nat" where
  "max_count vs = fold max (map (count_list vs) vs) 0"

definition mode :: "cell list \<Rightarrow> cell list" where
  \<comment> \<open>\<open>series.mode()\<close>: the most frequent non-missing values, sorted\<close>
  "mode cs =
     (let vs = dropna cs
      in sort_values (filter (\<lambda>v. count_list vs v = max_count vs) (uniq [] vs)))"

subsection \<open>Conversions\<close>

fun to_numeric_cell :: "pandas \<Rightarrow> cell \<Rightarrow> cell" where
  "to_numeric_cell P NA = NA"
| "to_numeric_cell P (Num x) = Num x"
| "to_numeric_cell P (Str s) = (case num_of_str P s of None \<Rightarrow> NA | Some x \<Rightarrow> Num x)"

definition safe_to_numeric :: "pandas \<Rightarrow> cell list \<Rightarrow> cell list" where
  \<comment> \<open>\<open>pd.to_numeric(series, errors="coerce")\<close>\<close>
  "safe_to_numeric P cs = map (to_numeric_cell P) cs"

definition truncate :: "rat \<Rightarrow> int" where
  "truncate x = (if 0 \<le> x then \<lfloor>x\<rfloor> else \<lceil>x\<rceil>)"

fun to_datetime_cell :: "pandas \<Rightarrow> cell \<Rightarrow> cell" where
  \<comment> \<open>a number is a count of nanoseconds since the epoch; a value outside the range of
      a timestamp or a string that does not parse is coerced to \<open>NaT\<close>\<close>
  "to_datetime_cell P NA = NA"
| "to_datetime_cell P (Num x) =
     (if - (2 ^ 63) < x \<and> x < 2 ^ 63 then Num (of_int (truncate x)) else NA)"
| "to_datetime_cell P (Str s) =
     (case date_of_str P s of None \<Rightarrow> NA | Some t \<Rightarrow> Num (of_int t))"

definition to_datetime :: "pandas \<Rightarrow> cell list \<Rightarrow> cell list" where
  \<comment> \<open>\<open>pd.to_datetime(series, errors="coerce")\<close>\<close>
  "to_datetime P cs = map (to_datetime_cell P) cs"

subsection \<open>Type inference\<close>

definition notna_mean :: "cell list \<Rightarrow> rat option" where
  \<comment> \<open>\<open>series.notna().mean()\<close>: the share of the rows that are not missing; \<open>NaN\<close> for a
      series without rows\<close>
  "notna_mean cs =
     (if cs = [] then None
      else Some (of_nat (length (dropna cs)) / of_nat (length cs)))"

definition try_parse_datetime :: "pandas \<Rightarrow> series \<Rightarrow> rat \<Rightarrow> bool" where
  "try_parse_datetime P s threshold =
     (let parsed = to_datetime P (cells s)
      in case notna_mean parsed of None \<Rightarrow> False | Some m \<Rightarrow> threshold \<le> m)"

definition nunique :: "cell list \<Rightarrow> nat" where
  \<comment> \<open>\<open>series.nunique(dropna=True)\<close>\<close>
  "nunique cs = length (uniq [] (dropna cs))"

definition infer_column_type :: "pandas \<Rightarrow> series \<Rightarrow> string" where
  "infer_column_type P s =
     (if try_parse_datetime P s (7 / 10) then ''datetime''
      else if kind s \<in> set ''iuf'' then ''numeric''
      else if nunique (cells s) \<le> 20 then ''categorical''
      else ''text'')"

subsection \<open>Column names\<close>

text \<open>Column labels are taken to be ASCII strings.\<close>

definition is_space :: "char \<Rightarrow> bool" where
  "is_space c \<longleftrightarrow> (let n = (of_char c :: nat) in n = 32 \<or> (9 \<le> n \<and> n \<le> 13) \<or> (28 \<le> n \<and> n \<le> 31))"

definition strip :: "string \<Rightarrow> string" where
  "strip s = rev (dropWhile is_space (rev (dropWhile is_space s)))"

definition lower_char :: "char \<Rightarrow> char" where
  "lower_char c =
     (let n = (of_char c :: nat) in if 65 \<le> n \<and> n \<le> 90 then char_of (n + 32) else c)"

definition is_word :: "char \<Rightarrow> bool" where
  \<comment> \<open>the characters the pattern \<open>[^\w_]\<close> leaves in place\<close>
  "is_word c \<longleftrightarrow>
     (let n = (of_char c :: nat)
      in (48 \<le> n \<and> n \<le> 57) \<or> (65 \<le> n \<and> n \<le> 90) \<or> (97 \<le> n \<and> n \<le> 122) \<or> n = 95)"

definition standardize_name :: "string \<Rightarrow> string" where
  "standardize_name s =
     filter is_word (map (\<lambda>c. if c = CHR '' '' then CHR ''_'' else c) (map lower_char (strip s)))"

definition standardize_column_names :: "dataframe \<Rightarrow> dataframe" where
  "standardize_column_names d = d\<lparr>columns := map standardize_name (columns d)\<rparr>"

section \<open>rule_engine.py\<close>

subsection \<open>Rules\<close>

text \<open>
  The rule dictionaries. A key that may be absent is an option; \<open>drop\<close> and the two
  global flags are read with \<open>.get\<close> for their truth value, so an absent key is
  \<open>False\<close>. The \<open>outliers\<close> fragment is a dictionary of its own, read for its truth
  value only: it counts when it is present and not empty.
\<close>

record missing_rule =
  strategy :: "string option"
  fill_value :: "cell option"

record rule =
  drop_rule :: bool
  target_type :: "string option"
  missing :: "missing_rule option"
  outliers :: "(string \<times> string) list option"

record global_rules =
  standardize_names :: bool
  drop_duplicates_rule :: bool

record ruleset =
  global :: "global_rules option"
  column_rules :: "(string \<times> rule) list option"

subsection \<open>Audit entries\<close>

text \<open>
  One constructor for each message the engine formats; \<open>render\<close> gives the text of
  the message.
\<close>

datatype entry =
    Standardized
  | DroppedDuplicates nat
  | DroppedColumn string
  | Cast string string
  | MissingHandled string nat nat string
  | OutliersRemoved string nat

fun entry_col :: "entry \<Rightarrow> string option" where
  "entry_col Standardized = None"
| "entry_col (DroppedDuplicates n) = None"
| "entry_col (DroppedColumn c) = Some c"
| "entry_col (Cast c t) = Some c"
| "entry_col (MissingHandled c b a s) = Some c"
| "entry_col (OutliersRemoved c n) = Some c"

fun show_nat :: "nat \<Rightarrow> string" where
  "show_nat n =
     (if n < 10 then [char_of (48 + n)] else show_nat (n div 10) @ [char_of (48 + n mod 10)])"

fun render :: "entry \<Rightarrow> string" where
  "render Standardized = ''Standardized column names''"
| "render (DroppedDuplicates n) = ''Dropped '' @ show_nat n @ '' duplicate rows''"
| "render (DroppedColumn c) = ''Dropped column: '' @ c"
| "render (Cast c t) = c @ '': cast to '' @ t"
| "render (MissingHandled c b a s) =
     c @ '': missing handled ('' @ show_nat b @ '' '' @ [char_of (226::nat), char_of (134::nat), char_of (146::nat)]
       @ '' '' @ show_nat a @ '') using '' @ s"
| "render (OutliersRemoved c n) = c @ '': removed '' @ show_nat n @ '' outliers using IQR''"

subsection \<open>The engine and its objects\<close>

text \<open>
  Data frames are mutable objects, so the engine runs on a store: \<open>heap\<close> holds the
  data frames that exist, an address is a position in it, and a new object is put at
  its end. \<open>df\<close> is the address \<open>self.df\<close> holds.
\<close>

record engine =
  heap :: "dataframe list"
  df :: nat
  audit_log :: "entry list"

text \<open>What a method leaves behind: the engine, and the exception if it raised.\<close>

datatype outcome = Ok engine | Raised error engine

fun engine_of :: "outcome \<Rightarrow> engine" where
  "engine_of (Ok st) = st"
| "engine_of (Raised e st) = st"

definition cur :: "engine \<Rightarrow> dataframe" where
  \<comment> \<open>the data frame \<open>self.df\<close> refers to\<close>
  "cur st = heap st ! df st"

definition rebind :: "dataframe \<Rightarrow> engine \<Rightarrow> engine" where
  \<comment> \<open>\<open>self.df = <a new data frame>\<close>\<close>
  "rebind d st = st\<lparr>heap := heap st @ [d], df := length (heap st)\<rparr>"

definition inplace :: "(dataframe \<Rightarrow> dataframe) \<Rightarrow> engine \<Rightarrow> engine" where
  \<comment> \<open>a change made to the object \<open>self.df\<close> refers to\<close>
  "inplace f st = st\<lparr>heap := (heap st)[df st := f (cur st)]\<rparr>"

definition append_log :: "entry \<Rightarrow> engine \<Rightarrow> engine" where
  "append_log e st = st\<lparr>audit_log := audit_log st @ [e]\<rparr>"

definition init :: "dataframe list \<Rightarrow> nat \<Rightarrow> engine" where
  \<comment> \<open>\<open>__init__\<close>: \<open>self.df = df.copy()\<close> for the caller's object at address \<open>a\<close>\<close>
  "init h a = \<lparr>heap = h @ [h ! a], df = length h, audit_log = []\<rparr>"

subsection \<open>Global rules\<close>

definition drop_duplicates :: "dataframe \<Rightarrow> dataframe" where
  \<comment> \<open>\<open>df.drop_duplicates()\<close>: the first of equal rows stays\<close>
  "drop_duplicates d = d\<lparr>rows := uniq [] (rows d)\<rparr>"

definition apply_standardize :: "global_rules \<Rightarrow> engine \<Rightarrow> engine" where
  "apply_standardize g st =
     (if standardize_names g
      then append_log Standardized (rebind (standardize_column_names (cur st)) st)
      else st)"

definition apply_drop_duplicates :: "global_rules \<Rightarrow> engine \<Rightarrow> engine" where
  "apply_drop_duplicates g st =
     (if drop_duplicates_rule g
      then (let n_before = length (rows (cur st));
                st1 = rebind (drop_duplicates (cur st)) st
            in append_log (DroppedDuplicates (n_before - length (rows (cur st1)))) st1)
      else st)"

definition apply_global_rules :: "ruleset \<Rightarrow> engine \<Rightarrow> outcome" where
  \<comment> \<open>\<open>self.rules["global_rules"]\<close> raises when the key is absent\<close>
  "apply_global_rules rs st =
     (case global rs of
        None \<Rightarrow> Raised KeyError st
      | Some g \<Rightarrow> Ok (apply_drop_duplicates g (apply_standardize g st)))"

subsection \<open>Rules of one column\<close>

definition handle_type_cast :: "pandas \<Rightarrow> string \<Rightarrow> rule \<Rightarrow> engine \<Rightarrow> engine" where
  \<comment> \<open>\<open>astype("category")\<close> keeps every value\<close>
  "handle_type_cast P col r st =
     (let c = get_col (cur st) col
      in if target_type r = Some ''numeric''
         then append_log (Cast col ''numeric'') (inplace (set_col col (safe_to_numeric P c)) st)
         else if target_type r = Some ''datetime''
         then append_log (Cast col ''datetime'') (inplace (set_col col (to_datetime P c)) st)
         else if target_type r = Some ''categorical''
         then append_log (Cast col ''categorical'') (inplace (set_col col c) st)
         else st)"

definition dropna_rows :: "string \<Rightarrow> dataframe \<Rightarrow> dataframe" where
  \<comment> \<open>\<open>df.dropna(subset=[col])\<close>\<close>
  "dropna_rows col d =
     d\<lparr>rows := filter (\<lambda>r. \<not> isna (r ! index_of col (columns d))) (rows d)\<rparr>"

definition fill_missing :: "string \<Rightarrow> missing_rule \<Rightarrow> string \<Rightarrow> engine \<Rightarrow> outcome" where
  \<comment> \<open>the chain of strategies; \<open>mode()[0]\<close> raises when there is no mode, and
      \<open>fillna\<close> raises for a fill value \<open>None\<close>\<close>
  "fill_missing col m s st =
     (let c = get_col (cur st) col
      in if s = ''mean''
         then (case mean c of
                 Inl e \<Rightarrow> Raised e st
               | Inr v \<Rightarrow> Ok (inplace (set_col col (fillna v c)) st))
         else if s = ''median''
         then (case median c of
                 Inl e \<Rightarrow> Raised e st
               | Inr v \<Rightarrow> Ok (inplace (set_col col (fillna v c)) st))
         else if s = ''mode''
         then (case mode c of
                 [] \<Rightarrow> Raised KeyError st
               | v # _ \<Rightarrow> Ok (inplace (set_col col (fillna v c)) st))
         else if s = ''constant''
         then (let v = (case fill_value m of None \<Rightarrow> Str ''Unknown'' | Some v \<Rightarrow> v)
               in if v = NA then Raised ValueError st
                  else Ok (inplace (set_col col (fillna v c)) st))
         else if s = ''drop''
         then Ok (rebind (dropna_rows col (cur st)) st)
         else Ok st)"

definition handle_missing :: "string \<Rightarrow> rule \<Rightarrow> engine \<Rightarrow> outcome" where
  "handle_missing col r st =
     (case missing r of
        None \<Rightarrow> Ok st
      | Some m \<Rightarrow>
          (case strategy m of
             None \<Rightarrow> Ok st
           | Some s \<Rightarrow>
               if s = [] then Ok st
               else (let n_before = isna_sum (get_col (cur st) col)
                     in case fill_missing col m s st of
                          Raised e st1 \<Rightarrow> Raised e st1
                        | Ok st1 \<Rightarrow>
                            Ok (append_log
                                  (MissingHandled col n_before (isna_sum (get_col (cur st1) col)) s)
                                  st1))))"

definition within_bounds :: "string \<Rightarrow> rat option \<Rightarrow> rat option \<Rightarrow> dataframe \<Rightarrow> dataframe" where
  \<comment> \<open>\<open>df[(df[col] >= lower) & (df[col] <= upper)]\<close>\<close>
  "within_bounds col lower upper d =
     d\<lparr>rows := filter (\<lambda>r. cell_ge (r ! index_of col (columns d)) lower
                          \<and> cell_le (r ! index_of col (columns d)) upper) (rows d)\<rparr>"

definition handle_outliers :: "string \<Rightarrow> rule \<Rightarrow> engine \<Rightarrow> outcome" where
  "handle_outliers col r st =
     (case outliers r of
        None \<Rightarrow> Ok st
      | Some outlier_rule \<Rightarrow>
          if outlier_rule = [] then Ok st
          else (case calculate_iqr_bounds (dropna (get_col (cur st) col)) of
                  Inl e \<Rightarrow> Raised e st
                | Inr (lower, upper) \<Rightarrow>
                    (let n_before = length (rows (cur st));
                         st1 = rebind (within_bounds col lower upper (cur st)) st;
                         removed = n_before - length (rows (cur st1))
                     in Ok (append_log (OutliersRemoved col removed) st1))))"

subsection \<open>apply\<close>

definition apply_rule :: "pandas \<Rightarrow> string \<Rightarrow> rule \<Rightarrow> engine \<Rightarrow> outcome" where
  \<comment> \<open>the body of the loop over the column rules\<close>
  "apply_rule P col r st =
     (if col \<notin> set (columns (cur st)) then Ok st
      else if drop_rule r
      then Ok (append_log (DroppedColumn col) (inplace (drop_col col) st))
      else (case handle_missing col r (handle_type_cast P col r st) of
              Raised e st1 \<Rightarrow> Raised e st1
            | Ok st1 \<Rightarrow> handle_outliers col r st1))"

fun apply_columns :: "pandas \<Rightarrow> (string \<times> rule) list \<Rightarrow> engine \<Rightarrow> outcome" where
  "apply_columns P [] st = Ok st"
| "apply_columns P ((col, r) # rest) st =
     (case apply_rule P col r st of
        Raised e st1 \<Rightarrow> Raised e st1
      | Ok st1 \<Rightarrow> apply_columns P rest st1)"

definition engine_apply :: "pandas \<Rightarrow> ruleset \<Rightarrow> engine \<Rightarrow> outcome" where
  \<comment> \<open>\<open>self.rules.get("columns", {})\<close>: no key, no column rule\<close>
  "engine_apply P rs st =
     (case apply_global_rules rs st of
        Raised e st1 \<Rightarrow> Raised e st1
      | Ok st1 \<Rightarrow>
          apply_columns P (case column_rules rs of None \<Rightarrow> [] | Some cs \<Rightarrow> cs) st1)"

definition returned :: "outcome \<Rightarrow> error + dataframe \<times> entry list" where
  \<comment> \<open>\<open>return self.df, self.audit_log\<close>\<close>
  "returned out = (case out of Raised e st \<Rightarrow> Inl e | Ok st \<Rightarrow> Inr (cur st, audit_log st))"

definition run :: "pandas \<Rightarrow> ruleset \<Rightarrow> dataframe list \<Rightarrow> nat \<Rightarrow> outcome" where
  \<comment> \<open>\<open>RuleEngine(df, rules).apply()\<close> for the data frame at address \<open>a\<close> of the store\<close>
  "run P rs h a = engine_apply P rs (init h a)"

section \<open>profiler.py\<close>

record outlier_info =
  outlier_count :: nat
  outlier_len :: nat

definition outlier_info_of :: "series \<Rightarrow> error + outlier_info option" where
  \<comment> \<open>\<open>_outlier_info\<close>; \<open>outlier_len\<close> is \<open>len(outliers)\<close>, the numerator of the
      percentage, whose division raises for a series without rows\<close>
  "outlier_info_of s =
     (if kind s \<notin> set ''iuf'' then Inr None
      else (case calculate_iqr_bounds (dropna (cells s)) of
              Inl e \<Rightarrow> Inl e
            | Inr (lower, upper) \<Rightarrow>
                (let outl = filter (\<lambda>c. cell_lt c lower \<or> cell_gt c upper) (cells s)
                 in if length (cells s) = 0 then Inl ZeroDivisionError
                    else Inr (Some \<lparr>outlier_count = length (dropna outl),
                                    outlier_len = length outl\<rparr>))))"

record column_profile =
  detected_type :: string
  missing_count :: nat
  unique_count :: nat
  sample_value :: "cell option"
  is_constant :: bool
  outlier_information :: "outlier_info option"

definition profile_column :: "pandas \<Rightarrow> series \<Rightarrow> error + column_profile" where
  \<comment> \<open>the entry \<open>profile["columns"][col]\<close>, without the two float roundings and the dtype name\<close>
  "profile_column P s =
     (case outlier_info_of s of
        Inl e \<Rightarrow> Inl e
      | Inr oi \<Rightarrow>
          Inr \<lparr>detected_type = infer_column_type P s,
               missing_count = isna_sum (cells s),
               unique_count = nunique (cells s),
               sample_value = (case dropna (cells s) of [] \<Rightarrow> None | c # _ \<Rightarrow> Some c),
               is_constant = (nunique (cells s) = 1),
               outlier_information = oi\<rparr>)"

section \<open>Definitions used to state the properties\<close>

text \<open>
  Parsers for the concrete examples: they agree with pandas on the strings the examples
  use, three ISO dates and strings that are neither a date nor a number.
\<close>

definition sample_dates :: "string \<Rightarrow> int option" where
  "sample_dates s =
     (if s = ''2024-01-01'' then Some 1704067200000000000
      else if s = ''2024-01-02'' then Some 1704153600000000000
      else if s = ''2024-01-04'' then Some 1704326400000000000
      else None)"

definition sample_numbers :: "string \<Rightarrow> rat option" where
  "sample_numbers s = None"

definition sample_pandas :: pandas where
  "sample_pandas = \<lparr>num_of_str = sample_numbers, date_of_str = sample_dates\<rparr>"

text \<open>
  The share of parsed values as the specification words it: the values that parse over
  the values that are not missing.
\<close>

definition spec_parsed_fraction :: "pandas \<Rightarrow> series \<Rightarrow> rat option" where
  "spec_parsed_fraction P s =
     (if dropna (cells s) = [] then None
      else Some (of_nat (length (dropna (to_datetime P (cells s))))
                   / of_nat (length (dropna (cells s)))))"

text \<open>
  The fill value of the mode strategy as the specification words it: of the most
  frequent non-missing values, the one met first in the column.
\<close>

definition spec_first_mode :: "cell list \<Rightarrow> cell option" where
  "spec_first_mode cs =
     (let vs = dropna cs
      in case filter (\<lambda>v. count_list vs v = max_count vs) vs of
           [] \<Rightarrow> None
         | v # _ \<Rightarrow> Some v)"

text \<open>The order in which pandas sorts the values of one type.\<close>

fun cell_leq :: "cell \<Rightarrow> cell \<Rightarrow> bool" where
  "cell_leq (Num a) (Num b) = (a \<le> b)"
| "cell_leq (Str a) (Str b) = (a \<le> b)"
| "cell_leq _ _ = False"

text \<open>
  The store of the engine extends the store \<open>h\<close> it started from, and \<open>self.df\<close> is an
  object made after \<open>h\<close>.
\<close>

definition keeps :: "dataframe list \<Rightarrow> engine \<Rightarrow> bool" where
  "keeps h st \<longleftrightarrow> length h \<le> df st \<and> df st < length (heap st) \<and> take (length h) (heap st) = h"

text \<open>Rules and a data frame for the examples: column \<open>a\<close> is entirely missing.\<close>

definition example_frame :: dataframe where
  "example_frame = \<lparr>columns = [''a'', ''b''], rows = [[NA, Num 1], [NA, Num 2]]\<rparr>"

definition fill_rule :: "string \<Rightarrow> rule" where
  "fill_rule s =
     \<lparr>drop_rule = False, target_type = None,
      missing = Some \<lparr>strategy = Some s, fill_value = None\<rparr>, outliers = None\<rparr>"

definition drop_only :: rule where
  "drop_only = \<lparr>drop_rule = True, target_type = None, missing = None, outliers = None\<rparr>"

definition no_global :: global_rules where
  "no_global = \<lparr>standardize_names = False, drop_duplicates_rule = False\<rparr>"

text \<open>A column in which two values are tied for the mode, the larger one first.\<close>

definition tie_frame :: dataframe where
  "tie_frame = \<lparr>columns = [''x''], rows = [[Num 2], [Num 1], [NA]]\<rparr>"

text \<open>The audit entries of one column.\<close>

definition entries_of :: "string \<Rightarrow> engine \<Rightarrow> entry list" where
  "entries_of col st = filter (\<lambda>e. entry_col e = Some col) (audit_log st)"

text \<open>A rule that drops its column and carries every other fragment as well.\<close>

definition drop_and_more :: rule where
  "drop_and_more =
     \<lparr>drop_rule = True, target_type = Some ''numeric'',
      missing = Some \<lparr>strategy = Some ''mean'', fill_value = None\<rparr>,
      outliers = Some [(''method'', ''iqr'')]\<rparr>"

definition drop_example :: ruleset where
  "drop_example =
     \<lparr>global = Some no_global,
      column_rules = Some [(''a'', fill_rule ''mean''), (''b'', drop_and_more)]\<rparr>"

section \<open>Properties\<close>

subsection \<open>The store\<close>

lemma cur_rebind: "cur (rebind d st) = d"
  by (simp add: cur_def rebind_def)

lemma cur_inplace: "df st < length (heap st) \<Longrightarrow> cur (inplace f st) = f (cur st)"
  by (simp add: cur_def inplace_def)

lemma cur_append_log: "cur (append_log e st) = cur st"
  by (simp add: cur_def append_log_def)

lemma audit_log_rebind: "audit_log (rebind d st) = audit_log st"
  by (simp add: rebind_def)

lemma audit_log_inplace: "audit_log (inplace f st) = audit_log st"
  by (simp add: inplace_def)

lemma audit_log_append_log: "audit_log (append_log e st) = audit_log st @ [e]"
  by (simp add: append_log_def)

subsection \<open>Duplicate rows\<close>

lemma uniq_fresh: "y \<in> set (uniq seen xs) \<Longrightarrow> y \<notin> set seen"
proof (induction xs arbitrary: seen)
  case Nil
  then show ?case by simp
next
  case (Cons a xs)
  show ?case
  proof (cases "a \<in> set seen")
    case True
    with Cons show ?thesis by simp
  next
    case False
    with Cons.prems have "y = a \<or> y \<in> set (uniq (a # seen) xs)" by simp
    then show ?thesis
    proof
      assume "y = a"
      with False show ?thesis by simp
    next
      assume "y \<in> set (uniq (a # seen) xs)"
      from Cons.IH [OF this] show ?thesis by simp
    qed
  qed
qed

lemma uniq_distinct: "distinct (uniq seen xs)"
proof (induction xs arbitrary: seen)
  case Nil
  show ?case by simp
next
  case (Cons x xs)
  have "x \<notin> set (uniq (x # seen) xs)"
    using uniq_fresh [of x "x # seen" xs] by auto
  with Cons show ?case by simp
qed

lemma uniq_id: "distinct xs \<Longrightarrow> set xs \<inter> set seen = {} \<Longrightarrow> uniq seen xs = xs"
  by (induction xs arbitrary: seen) auto

lemma uniq_idem: "uniq [] (uniq [] xs) = uniq [] xs"
  by (rule uniq_id) (simp_all add: uniq_distinct)

lemma drop_duplicates_idem: "drop_duplicates (drop_duplicates d) = drop_duplicates d"
  by (simp add: drop_duplicates_def uniq_idem)

text \<open>
  C8. The duplicate-removal step of the global phase, run in any state of the engine,
  leaves the data frame without its duplicate rows; run a second time it leaves the same
  data frame, and the audit entry it appends reports zero rows removed.
\<close>

theorem drop_duplicates_twice:
  "cur (apply_drop_duplicates (g\<lparr>drop_duplicates_rule := True\<rparr>) st) = drop_duplicates (cur st)
   \<and> cur (apply_drop_duplicates (g\<lparr>drop_duplicates_rule := True\<rparr>)
           (apply_drop_duplicates (g\<lparr>drop_duplicates_rule := True\<rparr>) st))
       = cur (apply_drop_duplicates (g\<lparr>drop_duplicates_rule := True\<rparr>) st)
   \<and> audit_log (apply_drop_duplicates (g\<lparr>drop_duplicates_rule := True\<rparr>)
           (apply_drop_duplicates (g\<lparr>drop_duplicates_rule := True\<rparr>) st))
       = audit_log (apply_drop_duplicates (g\<lparr>drop_duplicates_rule := True\<rparr>) st)
           @ [DroppedDuplicates 0]"
  by (simp add: apply_drop_duplicates_def Let_def cur_rebind cur_append_log
      audit_log_append_log audit_log_rebind drop_duplicates_idem)

subsection \<open>Rule sets without column rules\<close>

text \<open>
  C10. A rule set with global rules and no \<open>columns\<close> key is accepted: \<open>apply\<close> returns
  what the global phase leaves, and every audit entry it adds is an entry of the global
  phase, none of a column. A rule set without the \<open>global_rules\<close> key makes the call
  fail with a \<open>KeyError\<close>.
\<close>

theorem no_columns_key:
  "engine_apply P \<lparr>global = Some g, column_rules = None\<rparr> st
     = Ok (apply_drop_duplicates g (apply_standardize g st))
   \<and> apply_global_rules \<lparr>global = Some g, column_rules = None\<rparr> st
     = Ok (apply_drop_duplicates g (apply_standardize g st))
   \<and> list_all (\<lambda>e. entry_col e = None)
       (drop (length (audit_log st)) (audit_log (apply_drop_duplicates g (apply_standardize g st))))
   \<and> engine_apply P \<lparr>global = None, column_rules = cs\<rparr> st = Raised KeyError st"
  by (simp add: engine_apply_def apply_global_rules_def apply_drop_duplicates_def
      apply_standardize_def Let_def audit_log_append_log audit_log_rebind)

subsection \<open>Type inference\<close>

text \<open>
  C2. The integer column \<open>[1, 2, 2, 3, 1]\<close> of storage kind \<open>i\<close> is classified as
  datetime, whatever the string parsers are: \<open>pd.to_datetime\<close> reads each integer as a
  count of nanoseconds since the epoch, every value parses, and the datetime step
  returns before the storage kind is looked at.
\<close>

theorem integer_column_inferred_datetime:
  "infer_column_type P \<lparr>kind = CHR ''i'', cells = [Num 1, Num 2, Num 2, Num 3, Num 1]\<rparr> = ''datetime''"
  by (simp add: infer_column_type_def try_parse_datetime_def to_datetime_def notna_mean_def
      dropna_def isna_def)

lemma length_to_datetime: "length (to_datetime P cs) = length cs"
  by (simp add: to_datetime_def)

text \<open>
  C3 (as amended). A column is classified as datetime exactly when it has at least one
  row and the values that parse make up at least 0.7 of all its rows: the missing
  values count in the denominator.
\<close>

theorem datetime_iff_share_of_all_rows:
  "infer_column_type P s = ''datetime''
   \<longleftrightarrow> cells s \<noteq> []
       \<and> 7 / 10 \<le> (of_nat (length (dropna (to_datetime P (cells s)))) :: rat)
                     / of_nat (length (cells s))"
  by (simp add: infer_column_type_def try_parse_datetime_def notna_mean_def to_datetime_def)

text \<open>
  C3 as stated fails: in a column of three dates and two missing values every
  non-missing value parses, so the share over the non-missing values is 1, and the
  column is not classified as datetime, the share over all rows being 0.6.
\<close>

theorem datetime_share_counterexample:
  "spec_parsed_fraction sample_pandas
      \<lparr>kind = CHR ''O'', cells = [Str ''2024-01-01'', Str ''2024-01-02'', Str ''2024-01-04'', NA, NA]\<rparr>
     = Some 1
   \<and> infer_column_type sample_pandas
      \<lparr>kind = CHR ''O'', cells = [Str ''2024-01-01'', Str ''2024-01-02'', Str ''2024-01-04'', NA, NA]\<rparr>
     = ''categorical''"
  by code_simp

subsection \<open>Outlier removal\<close>

text \<open>
  C1. For the column \<open>age = [1, NaN, 2, 3]\<close> the bounds are \<open>[0, 4]\<close> and no value lies
  outside them, yet the outlier step removes the row whose value is missing and reports
  one outlier; for the all-missing column \<open>[NaN, NaN]\<close> it removes both rows.
\<close>

theorem outliers_drop_missing_rows:
  "calculate_iqr_bounds (dropna [Num 1, NA, Num 2, Num 3]) = Inr (Some 0, Some 4)
   \<and> returned (handle_outliers ''age''
      \<lparr>drop_rule = False, target_type = None, missing = None, outliers = Some [(''method'', ''iqr'')]\<rparr>
      (init [\<lparr>columns = [''age''], rows = [[Num 1], [NA], [Num 2], [Num 3]]\<rparr>] 0))
    = Inr (\<lparr>columns = [''age''], rows = [[Num 1], [Num 2], [Num 3]]\<rparr>, [OutliersRemoved ''age'' 1])
   \<and> returned (handle_outliers ''age''
      \<lparr>drop_rule = False, target_type = None, missing = None, outliers = Some [(''method'', ''iqr'')]\<rparr>
      (init [\<lparr>columns = [''age''], rows = [[NA], [NA]]\<rparr>] 0))
    = Inr (\<lparr>columns = [''age''], rows = []\<rparr>, [OutliersRemoved ''age'' 2])"
  by code_simp

subsection \<open>Outlier summary of the profile\<close>

lemma bounds_no_str: "\<not> list_ex is_str cs \<Longrightarrow> \<exists>lo up. calculate_iqr_bounds cs = Inr (lo, up)"
  by (simp add: calculate_iqr_bounds_def quantile_def Let_def)

lemma no_str_dropna: "\<not> list_ex is_str cs \<Longrightarrow> \<not> list_ex is_str (dropna cs)"
  by (simp add: dropna_def list_ex_iff)

lemma outliers_not_missing:
  "dropna (filter (\<lambda>c. cell_lt c lo \<or> cell_gt c up) cs) = filter (\<lambda>c. cell_lt c lo \<or> cell_gt c up) cs"
  by (induction cs) (auto simp: dropna_def isna_def)

lemma length_outliers:
  "length (filter (\<lambda>c. cell_lt c lo \<or> cell_gt c up) cs) + isna_sum cs \<le> length cs"
proof -
  have "length (filter (\<lambda>c. cell_lt c lo \<or> cell_gt c up) cs) \<le> length (filter (\<lambda>c. \<not> isna c) cs)"
    by (induction cs) (auto simp: isna_def)
  moreover have "length (filter isna cs) + length (filter (\<lambda>c. \<not> isna c) cs) = length cs"
    by (rule sum_length_filter_compl)
  ultimately show ?thesis by (simp add: isna_sum_def)
qed

text \<open>
  C9. For a column of numeric storage kind with at least one row (its cells are numbers
  or missing) the profile exists, the selected outliers contain no missing cell
  (\<open>len(outliers)\<close> equals \<open>outliers.count()\<close>), and the outlier count is at most the
  row count minus the missing count.
\<close>

theorem outlier_count_bound:
  assumes "kind s \<in> set ''iuf''" and "cells s \<noteq> []" and "\<not> list_ex is_str (cells s)"
  shows "\<exists>p oi. profile_column P s = Inr p \<and> outlier_information p = Some oi
           \<and> outlier_count oi \<le> length (cells s) - missing_count p
           \<and> outlier_len oi = outlier_count oi"
proof -
  from assms(3) obtain lo up where b: "calculate_iqr_bounds (dropna (cells s)) = Inr (lo, up)"
    using bounds_no_str [OF no_str_dropna] by blast
  let ?out = "filter (\<lambda>c. cell_lt c lo \<or> cell_gt c up) (cells s)"
  have oi: "outlier_info_of s = Inr (Some \<lparr>outlier_count = length ?out, outlier_len = length ?out\<rparr>)"
    using assms(1,2) b by (simp add: outlier_info_of_def outliers_not_missing Let_def)
  have "length ?out \<le> length (cells s) - isna_sum (cells s)"
    using length_outliers [of lo up "cells s"] by simp
  with oi show ?thesis by (simp add: profile_column_def)
qed

theorem outlier_count_bound_witness:
  "kind \<lparr>kind = CHR ''f'', cells = [Num 1, Num 2, Num 3, Num 100, NA]\<rparr> \<in> set ''iuf''
   \<and> cells \<lparr>kind = CHR ''f'', cells = [Num 1, Num 2, Num 3, Num 100, NA]\<rparr> \<noteq> []
   \<and> \<not> list_ex is_str (cells \<lparr>kind = CHR ''f'', cells = [Num 1, Num 2, Num 3, Num 100, NA]\<rparr>)
   \<and> (\<exists>p oi. profile_column sample_pandas \<lparr>kind = CHR ''f'', cells = [Num 1, Num 2, Num 3, Num 100, NA]\<rparr> = Inr p
         \<and> outlier_information p = Some oi
         \<and> outlier_count oi \<le> length (cells \<lparr>kind = CHR ''f'', cells = [Num 1, Num 2, Num 3, Num 100, NA]\<rparr>) - missing_count p
         \<and> outlier_len oi = outlier_count oi)"
  using outlier_count_bound [of "\<lparr>kind = CHR ''f'', cells = [Num 1, Num 2, Num 3, Num 100, NA]\<rparr>" sample_pandas]
  by simp

subsection \<open>The caller's data frame\<close>

lemma keeps_init: "keeps h (init h a)"
  by (simp add: keeps_def init_def)

lemma keeps_rebind: "keeps h st \<Longrightarrow> keeps h (rebind d st)"
  by (auto simp: keeps_def rebind_def)

lemma keeps_inplace: "keeps h st \<Longrightarrow> keeps h (inplace f st)"
  by (simp add: keeps_def inplace_def)

lemma keeps_append_log: "keeps h st \<Longrightarrow> keeps h (append_log e st)"
  by (simp add: keeps_def append_log_def)

lemmas keeps_steps = keeps_rebind keeps_inplace keeps_append_log

lemma keeps_apply_standardize: "keeps h st \<Longrightarrow> keeps h (apply_standardize g st)"
  by (simp add: apply_standardize_def keeps_steps)

lemma keeps_apply_drop_duplicates: "keeps h st \<Longrightarrow> keeps h (apply_drop_duplicates g st)"
  by (simp add: apply_drop_duplicates_def Let_def keeps_steps)

lemma keeps_apply_global_rules: "keeps h st \<Longrightarrow> keeps h (engine_of (apply_global_rules rs st))"
  by (simp add: apply_global_rules_def keeps_apply_standardize keeps_apply_drop_duplicates
      split: option.splits)

lemma keeps_handle_type_cast: "keeps h st \<Longrightarrow> keeps h (handle_type_cast P col r st)"
  by (simp add: handle_type_cast_def Let_def keeps_steps)

lemma keeps_fill_missing: "keeps h st \<Longrightarrow> keeps h (engine_of (fill_missing col m s st))"
  by (simp add: fill_missing_def Let_def keeps_steps split: sum.splits list.splits)

lemma keeps_handle_missing:
  assumes "keeps h st"
  shows "keeps h (engine_of (handle_missing col r st))"
proof (cases "missing r")
  case None
  with assms show ?thesis by (simp add: handle_missing_def)
next
  case m: (Some m)
  show ?thesis
  proof (cases "strategy m")
    case None
    with m assms show ?thesis by (simp add: handle_missing_def)
  next
    case s: (Some s)
    have k: "keeps h (engine_of (fill_missing col m s st))"
      using assms by (rule keeps_fill_missing)
    show ?thesis
    proof (cases "fill_missing col m s st")
      case (Ok st1)
      with k m s assms show ?thesis
        by (simp add: handle_missing_def Let_def keeps_append_log)
    next
      case (Raised e st1)
      with k m s assms show ?thesis
        by (simp add: handle_missing_def Let_def)
    qed
  qed
qed

lemma keeps_handle_outliers: "keeps h st \<Longrightarrow> keeps h (engine_of (handle_outliers col r st))"
  by (simp add: handle_outliers_def Let_def keeps_steps split: option.splits sum.splits prod.splits)

lemma keeps_apply_rule:
  assumes "keeps h st"
  shows "keeps h (engine_of (apply_rule P col r st))"
proof -
  have k: "keeps h (engine_of (handle_missing col r (handle_type_cast P col r st)))"
    using assms by (intro keeps_handle_missing keeps_handle_type_cast)
  show ?thesis
  proof (cases "handle_missing col r (handle_type_cast P col r st)")
    case (Ok st1)
    with k have "keeps h (engine_of (handle_outliers col r st1))"
      by (simp add: keeps_handle_outliers)
    with Ok assms show ?thesis by (simp add: apply_rule_def keeps_steps)
  next
    case (Raised e st1)
    with k assms show ?thesis by (simp add: apply_rule_def keeps_steps)
  qed
qed

lemma keeps_apply_columns: "keeps h st \<Longrightarrow> keeps h (engine_of (apply_columns P cs st))"
proof (induction cs arbitrary: st)
  case Nil
  then show ?case by simp
next
  case (Cons c cs)
  obtain col r where c: "c = (col, r)" by (cases c)
  have k: "keeps h (engine_of (apply_rule P col r st))"
    using Cons.prems by (rule keeps_apply_rule)
  show ?case
  proof (cases "apply_rule P col r st")
    case (Ok st1)
    with k c Cons.IH [of st1] show ?thesis by simp
  next
    case (Raised e st1)
    with k c show ?thesis by simp
  qed
qed

lemma keeps_engine_apply:
  assumes "keeps h st"
  shows "keeps h (engine_of (engine_apply P rs st))"
proof -
  have k: "keeps h (engine_of (apply_global_rules rs st))"
    using assms by (rule keeps_apply_global_rules)
  show ?thesis
  proof (cases "apply_global_rules rs st")
    case (Ok st1)
    with k show ?thesis by (simp add: engine_apply_def keeps_apply_columns)
  next
    case (Raised e st1)
    with k show ?thesis by (simp add: engine_apply_def)
  qed
qed

text \<open>
  C7. Whatever the rules are and whether \<open>apply\<close> returns or raises, every data
  frame that existed before the engine was built, the caller's among them, is unchanged
  afterwards, and the data frame the engine works on and returns is an object of its
  own.
\<close>

theorem caller_frames_unchanged:
  "take (length h) (heap (engine_of (run P rs h a))) = h
   \<and> length h \<le> df (engine_of (run P rs h a))"
proof -
  have "keeps h (engine_of (run P rs h a))"
    unfolding run_def by (rule keeps_engine_apply) (rule keeps_init)
  then show ?thesis by (simp add: keeps_def)
qed

subsection \<open>Missing values\<close>







lemma length_get_col: "length (get_col d col) = length (rows d)"
  by (simp add: get_col_def)






subsection \<open>The mode strategy\<close>

lemma uniq_set: "set (uniq seen xs) = set xs - set seen"
  by (induction xs arbitrary: seen) auto

lemma max_count_Max: "max_count vs = Max (set (0 # map (count_list vs) vs))"
  by (simp only: max_count_def Max.set_eq_fold)

lemma count_le_max_count: "w \<in> set vs \<Longrightarrow> count_list vs w \<le> max_count vs"
  unfolding max_count_Max by (rule Max_ge) auto

lemma max_count_attained:
  assumes "vs \<noteq> []"
  shows "\<exists>v \<in> set vs. count_list vs v = max_count vs"
proof -
  have "max_count vs \<in> set (0 # map (count_list vs) vs)"
    unfolding max_count_Max by (rule Max_in) auto
  moreover have "max_count vs \<noteq> 0"
  proof -
    from assms obtain w where w: "w \<in> set vs" by (cases vs) auto
    then have "count_list vs w \<noteq> 0" by (simp add: count_list_0_iff)
    with count_le_max_count [OF w] show ?thesis by simp
  qed
  ultimately show ?thesis by auto
qed

lemma map_Num_num_values: "list_all is_num vs \<Longrightarrow> map Num (num_values vs) = vs"
proof (induction vs)
  case Nil
  show ?case by simp
next
  case (Cons v vs)
  then show ?case by (cases v) simp_all
qed

lemma map_Str_str_values: "list_all is_str vs \<Longrightarrow> map Str (str_values vs) = vs"
proof (induction vs)
  case Nil
  show ?case by simp
next
  case (Cons v vs)
  then show ?case by (cases v) simp_all
qed

lemma sort_head_least:
  fixes xs :: "'a::linorder list"
  assumes "sort xs = a # as" and "x \<in> set xs"
  shows "a \<le> x"
proof -
  have "sorted (a # as)" using assms(1) sorted_sort [of xs] by simp
  moreover have "x \<in> set (a # as)" using assms by (metis set_sort)
  ultimately show ?thesis by auto
qed

lemma sort_values_head:
  assumes ne: "vs \<noteq> []" and hom: "list_all is_num vs \<or> list_all is_str vs"
  shows "\<exists>v rest. sort_values vs = v # rest \<and> v \<in> set vs \<and> (\<forall>w \<in> set vs. cell_leq v w)"
proof (cases "list_all is_num vs")
  case True
  have vs: "map Num (num_values vs) = vs" using True by (rule map_Num_num_values)
  with ne have "sort (num_values vs) \<noteq> []" by (metis list.map_disc_iff length_0_conv length_sort)
  then obtain a as where s: "sort (num_values vs) = a # as" by (cases "sort (num_values vs)") auto
  have "a \<in> set (num_values vs)" using s by (metis list.set_intros(1) set_sort)
  then have 1: "Num a \<in> set vs" using vs by (metis image_eqI set_map)
  have 2: "cell_leq (Num a) w" if "w \<in> set vs" for w
  proof -
    from that vs obtain x where "w = Num x" "x \<in> set (num_values vs)"
      by (metis image_iff set_map)
    with sort_head_least [OF s] show ?thesis by simp
  qed
  from True s 1 2 show ?thesis by (simp add: sort_values_def)
next
  case False
  with hom have str: "list_all is_str vs" by simp
  have vs: "map Str (str_values vs) = vs" using str by (rule map_Str_str_values)
  with ne have "sort (str_values vs) \<noteq> []" by (metis list.map_disc_iff length_0_conv length_sort)
  then obtain a as where s: "sort (str_values vs) = a # as" by (cases "sort (str_values vs)") auto
  have "a \<in> set (str_values vs)" using s by (metis list.set_intros(1) set_sort)
  then have 1: "Str a \<in> set vs" using vs by (metis image_eqI set_map)
  have 2: "cell_leq (Str a) w" if "w \<in> set vs" for w
  proof -
    from that vs obtain x where "w = Str x" "x \<in> set (str_values vs)"
      by (metis image_iff set_map)
    with sort_head_least [OF s] show ?thesis by simp
  qed
  from False str s 1 2 show ?thesis by (simp add: sort_values_def)
qed

lemma mode_head:
  assumes ne: "dropna cs \<noteq> []"
    and hom: "list_all is_num (dropna cs) \<or> list_all is_str (dropna cs)"
  shows "\<exists>v rest. mode cs = v # rest \<and> v \<in> set (dropna cs)
           \<and> count_list (dropna cs) v = max_count (dropna cs)
           \<and> (\<forall>w \<in> set (dropna cs). count_list (dropna cs) w = max_count (dropna cs) \<longrightarrow> cell_leq v w)"
proof -
  let ?vs = "dropna cs"
  let ?tied = "filter (\<lambda>v. count_list ?vs v = max_count ?vs) (uniq [] ?vs)"
  have set_tied: "set ?tied = {v \<in> set ?vs. count_list ?vs v = max_count ?vs}"
    by (auto simp: uniq_set)
  from max_count_attained [OF ne] have "set ?tied \<noteq> {}" unfolding set_tied by blast
  then have tne: "?tied \<noteq> []" by (metis list.set(1))
  have thom: "list_all is_num ?tied \<or> list_all is_str ?tied"
    using hom set_tied by (auto simp: list_all_iff)
  from sort_values_head [OF tne thom] obtain v rest
    where "sort_values ?tied = v # rest" "v \<in> set ?tied" "\<forall>w \<in> set ?tied. cell_leq v w"
    by blast
  then show ?thesis unfolding set_tied by (auto simp: mode_def Let_def)
qed

lemma index_of_less: "x \<in> set xs \<Longrightarrow> index_of x xs < length xs"
  by (induction xs) auto

lemma nth_updated_rows:
  assumes "length vs = length rs" and "\<forall>r \<in> set rs. i < length r"
  shows "map (\<lambda>r. r ! i) (map (\<lambda>(r, v). r[i := v]) (zip rs vs)) = vs"
  using assms by (induction vs rs rule: list_induct2) simp_all

lemma get_col_set_col:
  assumes "col \<in> set (columns d)"
    and "list_all (\<lambda>r. length r = length (columns d)) (rows d)"
    and "length vs = length (rows d)"
  shows "get_col (set_col col vs d) col = vs"
proof -
  have "\<forall>r \<in> set (rows d). index_of col (columns d) < length r"
    using assms(1,2) by (simp add: list_all_iff index_of_less)
  with assms(3) show ?thesis
    by (simp add: get_col_def set_col_def nth_updated_rows del: map_map)
qed

lemma length_fillna: "length (fillna v cs) = length cs"
  by (simp add: fillna_def)

text \<open>
  C5 (as amended). For a column with at least one non-missing value whose non-missing
  values are all numbers or all strings, the mode strategy fills the missing cells with
  a most frequent non-missing value, and when several values are tied for the highest
  frequency the one chosen is the smallest of them in sort order.
\<close>

theorem mode_fill_is_smallest_mode:
  assumes wf: "df st < length (heap st)" "wf_df (cur st)" "col \<in> set (columns (cur st))"
    and m: "missing r = Some m" "strategy m = Some ''mode''"
    and c: "c = get_col (cur st) col"
    and ne: "dropna c \<noteq> []"
    and hom: "list_all is_num (dropna c) \<or> list_all is_str (dropna c)"
  shows "\<exists>v st'. handle_missing col r st = Ok st'
           \<and> get_col (cur st') col = fillna v c
           \<and> v \<in> set (dropna c)
           \<and> (\<forall>w \<in> set (dropna c). count_list (dropna c) w \<le> count_list (dropna c) v)
           \<and> (\<forall>w \<in> set (dropna c). count_list (dropna c) w = count_list (dropna c) v \<longrightarrow> cell_leq v w)"
proof -
  from mode_head [OF ne hom] obtain v rest where
    md: "mode c = v # rest" and v: "v \<in> set (dropna c)"
    and mx: "count_list (dropna c) v = max_count (dropna c)"
    and least: "\<forall>w \<in> set (dropna c). count_list (dropna c) w = max_count (dropna c) \<longrightarrow> cell_leq v w"
    by blast
  let ?st1 = "inplace (set_col col (fillna v c)) st"
  have f: "fill_missing col m ''mode'' st = Ok ?st1"
    using md c by (simp add: fill_missing_def Let_def)
  let ?st' = "append_log (MissingHandled col (isna_sum c) (isna_sum (get_col (cur ?st1) col)) ''mode'') ?st1"
  have h: "handle_missing col r st = Ok ?st'"
    using m f c by (simp add: handle_missing_def Let_def)
  have "cur ?st' = set_col col (fillna v c) (cur st)"
    using wf(1) by (simp add: cur_append_log cur_inplace)
  moreover have "get_col (set_col col (fillna v c) (cur st)) col = fillna v c"
    using wf(2,3) c by (intro get_col_set_col) (simp_all add: wf_df_def length_fillna length_get_col)
  ultimately have g: "get_col (cur ?st') col = fillna v c" by simp
  have le: "\<forall>w \<in> set (dropna c). count_list (dropna c) w \<le> count_list (dropna c) v"
    using mx count_le_max_count by simp
  from h g v le least mx show ?thesis by auto
qed

theorem mode_fill_is_smallest_mode_witness:
  "\<exists>v st'. handle_missing ''x'' (fill_rule ''mode'') (init [tie_frame] 0) = Ok st'
           \<and> get_col (cur st') ''x'' = fillna v [Num 2, Num 1, NA]
           \<and> v \<in> set (dropna [Num 2, Num 1, NA])
           \<and> (\<forall>w \<in> set (dropna [Num 2, Num 1, NA]).
                 count_list (dropna [Num 2, Num 1, NA]) w \<le> count_list (dropna [Num 2, Num 1, NA]) v)
           \<and> (\<forall>w \<in> set (dropna [Num 2, Num 1, NA]).
                 count_list (dropna [Num 2, Num 1, NA]) w = count_list (dropna [Num 2, Num 1, NA]) v
                 \<longrightarrow> cell_leq v w)"
proof -
  have 1: "df (init [tie_frame] 0) < length (heap (init [tie_frame] 0))" by code_simp
  have 2: "wf_df (cur (init [tie_frame] 0))" by code_simp
  have 3: "''x'' \<in> set (columns (cur (init [tie_frame] 0)))" by code_simp
  have 4: "missing (fill_rule ''mode'') = Some \<lparr>strategy = Some ''mode'', fill_value = None\<rparr>"
    by code_simp
  have 5: "strategy \<lparr>strategy = Some ''mode'', fill_value = None\<rparr> = Some ''mode''" by simp
  have 6: "[Num 2, Num 1, NA] = get_col (cur (init [tie_frame] 0)) ''x''" by code_simp
  have 7: "dropna [Num 2, Num 1, NA] \<noteq> []" by code_simp
  have 8: "list_all is_num (dropna [Num 2, Num 1, NA]) \<or> list_all is_str (dropna [Num 2, Num 1, NA])"
    by code_simp
  show ?thesis by (rule mode_fill_is_smallest_mode [OF 1 2 3 4 5 6 7 8])
qed

text \<open>
  C5 as stated fails: in the column \<open>[2, 1, NaN]\<close> the values 2 and 1 are tied and 2
  comes first, but \<open>mode()\<close> returns the modes sorted and the missing cell is filled
  with 1.
\<close>

theorem mode_tie_not_first_encountered:
  "spec_first_mode [Num 2, Num 1, NA] = Some (Num 2)
   \<and> returned (handle_missing ''x'' (fill_rule ''mode'') (init [tie_frame] 0))
       = Inr (\<lparr>columns = [''x''], rows = [[Num 2], [Num 1], [Num 1]]\<rparr>,
              [MissingHandled ''x'' 1 0 ''mode''])"
  by code_simp

subsection \<open>Dropping a column\<close>

lemma keeps_Nil: "keeps [] st \<longleftrightarrow> df st < length (heap st)"
  by (simp add: keeps_def)

lemma columns_set_col: "columns (set_col col vs d) = columns d"
  by (simp add: set_col_def)

lemma entries_of_rebind: "entries_of c (rebind d st) = entries_of c st"
  by (simp add: entries_of_def audit_log_rebind)

lemma entries_of_inplace: "entries_of c (inplace f st) = entries_of c st"
  by (simp add: entries_of_def audit_log_inplace)

lemma entries_of_append_log:
  "entries_of c (append_log e st) = entries_of c st @ (if entry_col e = Some c then [e] else [])"
  by (simp add: entries_of_def audit_log_append_log)

lemmas entries_of_steps = entries_of_rebind entries_of_inplace entries_of_append_log

text \<open>The type cast.\<close>

lemma type_cast_columns:
  "df st < length (heap st) \<Longrightarrow> columns (cur (handle_type_cast P col r st)) = columns (cur st)"
  by (simp add: handle_type_cast_def Let_def cur_append_log cur_inplace columns_set_col)

lemma type_cast_entries:
  "c \<noteq> col \<Longrightarrow> entries_of c (handle_type_cast P col r st) = entries_of c st"
  by (simp add: handle_type_cast_def Let_def entries_of_steps)

text \<open>The missing values.\<close>

lemma fill_missing_columns:
  assumes "df st < length (heap st)" and "fill_missing col m s st = Ok st1"
  shows "columns (cur st1) = columns (cur st)"
  using assms
  by (auto simp: fill_missing_def Let_def cur_inplace cur_rebind columns_set_col dropna_rows_def
      split: if_splits sum.splits list.splits)

lemma fill_missing_entries:
  assumes "fill_missing col m s st = Ok st1"
  shows "entries_of c st1 = entries_of c st"
  using assms
  by (auto simp: fill_missing_def Let_def entries_of_steps split: if_splits sum.splits list.splits)

lemma handle_missing_cases:
  assumes "handle_missing col r st = Ok st'"
  obtains "st' = st"
  | m s st1 n1 n2 where "fill_missing col m s st = Ok st1"
      and "st' = append_log (MissingHandled col n1 n2 s) st1"
  using assms
  by (auto simp: handle_missing_def Let_def split: option.splits if_splits outcome.splits)

lemma handle_missing_columns:
  assumes "df st < length (heap st)" and "handle_missing col r st = Ok st'"
  shows "columns (cur st') = columns (cur st)"
  using assms(2)
proof (cases rule: handle_missing_cases)
  case 1
  then show ?thesis by simp
next
  case (2 m s st1 n1 n2)
  with fill_missing_columns [OF assms(1) 2(1)] show ?thesis by (simp add: cur_append_log)
qed

lemma handle_missing_entries:
  assumes "c \<noteq> col" and "handle_missing col r st = Ok st'"
  shows "entries_of c st' = entries_of c st"
  using assms(2)
proof (cases rule: handle_missing_cases)
  case 1
  then show ?thesis by simp
next
  case (2 m s st1 n1 n2)
  with fill_missing_entries [OF 2(1), of c] assms(1) show ?thesis
    by (simp add: entries_of_steps)
qed

text \<open>The outliers.\<close>

lemma handle_outliers_columns:
  assumes "handle_outliers col r st = Ok st'"
  shows "columns (cur st') = columns (cur st)"
  using assms
  by (auto simp: handle_outliers_def Let_def cur_append_log cur_rebind within_bounds_def
      split: option.splits if_splits sum.splits prod.splits)

lemma handle_outliers_entries:
  assumes "c \<noteq> col" and "handle_outliers col r st = Ok st'"
  shows "entries_of c st' = entries_of c st"
  using assms
  by (auto simp: handle_outliers_def Let_def entries_of_steps
      split: option.splits if_splits sum.splits prod.splits)

text \<open>One rule.\<close>

lemma wf_apply_rule:
  assumes "df st < length (heap st)" and "apply_rule P col r st = Ok st'"
  shows "df st' < length (heap st')"
  using keeps_apply_rule [of "[]" st P col r] assms by (simp add: keeps_Nil)

lemma apply_rule_drop:
  assumes "drop_rule r" and "col \<in> set (columns (cur st))"
  shows "apply_rule P col r st = Ok (append_log (DroppedColumn col) (inplace (drop_col col) st))"
  using assms by (simp add: apply_rule_def)

lemma dropped_columns:
  assumes "df st < length (heap st)"
  shows "columns (cur (append_log (DroppedColumn col) (inplace (drop_col col) st)))
           = filter (\<lambda>n. n \<noteq> col) (columns (cur st))"
  using assms by (simp add: cur_append_log cur_inplace drop_col_def)

lemma apply_rule_other:
  assumes wf: "df st < length (heap st)" and ok: "apply_rule P col r st = Ok st'" and ne: "c \<noteq> col"
  shows "(c \<in> set (columns (cur st')) \<longleftrightarrow> c \<in> set (columns (cur st)))
         \<and> entries_of c st' = entries_of c st"
proof (cases "col \<in> set (columns (cur st))")
  case False
  with ok show ?thesis by (simp add: apply_rule_def)
next
  case present: True
  show ?thesis
  proof (cases "drop_rule r")
    case True
    from apply_rule_drop [OF True present, of P] dropped_columns [OF wf, of col] ok ne
    show ?thesis by (auto simp: entries_of_steps)
  next
    case False
    let ?st1 = "handle_type_cast P col r st"
    have wf1: "df ?st1 < length (heap ?st1)"
      using keeps_handle_type_cast [of "[]" st P col r] wf by (simp add: keeps_Nil)
    from ok present False obtain st2 where
      m: "handle_missing col r ?st1 = Ok st2" and o: "handle_outliers col r st2 = Ok st'"
      by (auto simp: apply_rule_def split: outcome.splits)
    have "columns (cur st') = columns (cur st)"
      using handle_outliers_columns [OF o] handle_missing_columns [OF wf1 m]
        type_cast_columns [OF wf, of P col r] by simp
    moreover have "entries_of c st' = entries_of c st"
      using handle_outliers_entries [OF ne o] handle_missing_entries [OF ne m]
        type_cast_entries [OF ne, of P r st] by simp
    ultimately show ?thesis by simp
  qed
qed

text \<open>The loop over the rules.\<close>

lemma apply_columns_other:
  assumes "col \<notin> fst ` set cs" and "df st < length (heap st)" and "apply_columns P cs st = Ok st'"
  shows "(col \<in> set (columns (cur st')) \<longleftrightarrow> col \<in> set (columns (cur st)))
         \<and> entries_of col st' = entries_of col st"
  using assms
proof (induction cs arbitrary: st)
  case Nil
  then show ?case by simp
next
  case (Cons x cs)
  obtain c r where x: "x = (c, r)" by (cases x)
  from Cons.prems(3) x obtain st1 where
    r: "apply_rule P c r st = Ok st1" and rest: "apply_columns P cs st1 = Ok st'"
    by (auto split: outcome.splits)
  from Cons.prems(1) x have ne: "col \<noteq> c" and notin: "col \<notin> fst ` set cs" by auto
  from apply_rule_other [OF Cons.prems(2) r ne]
    Cons.IH [OF notin wf_apply_rule [OF Cons.prems(2) r] rest]
  show ?case by simp
qed

lemma apply_columns_dropped:
  assumes "distinct (map fst cs)" and "(col, r) \<in> set cs" and "drop_rule r"
    and "df st < length (heap st)" and "col \<in> set (columns (cur st))"
    and "apply_columns P cs st = Ok st'"
  shows "col \<notin> set (columns (cur st'))
         \<and> entries_of col st' = entries_of col st @ [DroppedColumn col]"
  using assms
proof (induction cs arbitrary: st)
  case Nil
  then show ?case by simp
next
  case (Cons x cs)
  obtain c q where x: "x = (c, q)" by (cases x)
  from Cons.prems(6) x obtain st1 where
    r: "apply_rule P c q st = Ok st1" and rest: "apply_columns P cs st1 = Ok st'"
    by (auto split: outcome.splits)
  have wf1: "df st1 < length (heap st1)" by (rule wf_apply_rule [OF Cons.prems(4) r])
  from Cons.prems(1) x have notin: "c \<notin> fst ` set cs" and d: "distinct (map fst cs)" by auto
  show ?case
  proof (cases "c = col")
    case True
    with Cons.prems(2) x notin have q: "q = r" by (auto simp: image_iff) 
    from apply_rule_drop [OF Cons.prems(3,5), of P] dropped_columns [OF Cons.prems(4), of col]
      r True q
    have 1: "col \<notin> set (columns (cur st1))"
      and 2: "entries_of col st1 = entries_of col st @ [DroppedColumn col]"
      by (auto simp: entries_of_steps)
    from True notin have "col \<notin> fst ` set cs" by simp
    from apply_columns_other [OF this wf1 rest] 1 2 show ?thesis by simp
  next
    case False
    with Cons.prems(2) x have mem: "(col, r) \<in> set cs" by auto
    from False have ne: "col \<noteq> c" by simp
    from apply_rule_other [OF Cons.prems(4) r ne] Cons.prems(5)
    have 1: "col \<in> set (columns (cur st1))" and 2: "entries_of col st1 = entries_of col st"
      by simp_all
    from Cons.IH [OF d mem Cons.prems(3) wf1 1 rest] 2 show ?thesis by simp
  qed
qed

text \<open>The global phase logs no entry of a column.\<close>

lemma global_rules_entries:
  assumes "apply_global_rules rs st = Ok st0"
  shows "entries_of c st0 = entries_of c st"
  using assms
  by (auto simp: apply_global_rules_def apply_standardize_def apply_drop_duplicates_def Let_def
      entries_of_steps split: option.splits)

lemma wf_global_rules:
  assumes "df st < length (heap st)" and "apply_global_rules rs st = Ok st0"
  shows "df st0 < length (heap st0)"
  using keeps_apply_global_rules [of "[]" st rs] assms by (simp add: keeps_Nil)

text \<open>The other fragments of a rule that drops its column are never read.\<close>

lemma apply_rule_bare: "drop_rule r \<Longrightarrow> apply_rule P c r st = apply_rule P c drop_only st"
  by (simp add: apply_rule_def drop_only_def)

lemma apply_columns_bare:
  assumes "\<forall>x. (col, x) \<in> set cs \<longrightarrow> drop_rule x"
  shows "apply_columns P (map (\<lambda>(c, x). (c, if c = col then drop_only else x)) cs) st
         = apply_columns P cs st"
  using assms
proof (induction cs arbitrary: st)
  case Nil
  show ?case by simp
next
  case (Cons y cs)
  obtain c x where y: "y = (c, x)" by (cases y)
  have ih: "apply_columns P (map (\<lambda>(c, x). (c, if c = col then drop_only else x)) cs) s
         = apply_columns P cs s" for s
    using Cons.prems by (intro Cons.IH) simp
  show ?case
  proof (cases "c = col")
    case True
    with Cons.prems y have "drop_rule x" by simp
    then have "apply_rule P c x st = apply_rule P c drop_only st" by (rule apply_rule_bare)
    with True y ih show ?thesis by (simp split: outcome.splits)
  next
    case False
    with y ih show ?thesis by (simp split: outcome.splits)
  qed
qed

text \<open>
  C6. Let a rule of the rule set have \<open>drop: true\<close>, for a column that the data frame has
  after the global phase (a data frame with distinct labels and rows of one length), and
  let \<open>apply\<close> return. Then the returned data frame does not
  have the column, the audit log has exactly one entry for the column, the entry of the
  drop, and the call returns the same as with the rule replaced by the bare rule
  \<open>{drop: true}\<close>: no other fragment of the rule is applied.
\<close>

theorem drop_short_circuits:
  assumes rules: "column_rules rs = Some cs" and keys: "distinct (map fst cs)"
    and r: "(col, r) \<in> set cs" and dr: "drop_rule r"
    and glob: "apply_global_rules rs (init h a) = Ok st0"
    and frame: "wf_df (cur st0)"
    and present: "col \<in> set (columns (cur st0))"
    and ok: "run P rs h a = Ok st'"
  shows "col \<notin> set (columns (cur st'))
         \<and> filter (\<lambda>e. entry_col e = Some col) (audit_log st') = [DroppedColumn col]
         \<and> run P (rs\<lparr>column_rules := Some (map (\<lambda>(c, x). (c, if c = col then drop_only else x)) cs)\<rparr>) h a
             = Ok st'"
proof -
  have wf: "df (init h a) < length (heap (init h a))" by (simp add: init_def)
  have wf0: "df st0 < length (heap st0)" by (rule wf_global_rules [OF wf glob])
  have e0: "entries_of col st0 = []"
    using global_rules_entries [OF glob, of col] by (simp add: entries_of_def init_def)
  from ok glob rules have cols: "apply_columns P cs st0 = Ok st'"
    by (simp add: run_def engine_apply_def)
  from apply_columns_dropped [OF keys r dr wf0 present cols] e0
  have 1: "col \<notin> set (columns (cur st'))"
    and 2: "filter (\<lambda>e. entry_col e = Some col) (audit_log st') = [DroppedColumn col]"
    by (simp_all add: entries_of_def)
  have "\<forall>x. (col, x) \<in> set cs \<longrightarrow> drop_rule x"
  proof (intro allI impI)
    fix x assume "(col, x) \<in> set cs"
    with keys r have "x = r" by (meson eq_key_imp_eq_value)
    with dr show "drop_rule x" by simp
  qed
  from apply_columns_bare [OF this, of P st0] cols glob
  have 3: "run P (rs\<lparr>column_rules := Some (map (\<lambda>(c, x). (c, if c = col then drop_only else x)) cs)\<rparr>) h a
             = Ok st'"
    by (simp add: run_def engine_apply_def apply_global_rules_def)
  from 1 2 3 show ?thesis by simp
qed

theorem drop_short_circuits_witness:
  "''b'' \<notin> set (columns (cur (engine_of (run sample_pandas drop_example [example_frame] 0))))
   \<and> filter (\<lambda>e. entry_col e = Some ''b'')
        (audit_log (engine_of (run sample_pandas drop_example [example_frame] 0)))
      = [DroppedColumn ''b'']
   \<and> run sample_pandas
        (drop_example\<lparr>column_rules := Some (map (\<lambda>(c, x). (c, if c = ''b'' then drop_only else x))
           [(''a'', fill_rule ''mean''), (''b'', drop_and_more)])\<rparr>) [example_frame] 0
      = Ok (engine_of (run sample_pandas drop_example [example_frame] 0))"
proof -
  have 1: "column_rules drop_example = Some [(''a'', fill_rule ''mean''), (''b'', drop_and_more)]"
    by (simp add: drop_example_def)
  have 2: "distinct (map fst [(''a'', fill_rule ''mean''), (''b'', drop_and_more)])" by simp
  have 3: "(''b'', drop_and_more) \<in> set [(''a'', fill_rule ''mean''), (''b'', drop_and_more)]"
    by simp
  have 4: "drop_rule drop_and_more" by (simp add: drop_and_more_def)
  have 5: "apply_global_rules drop_example (init [example_frame] 0) = Ok (init [example_frame] 0)"
    by code_simp
  have 6: "wf_df (cur (init [example_frame] 0))" by code_simp
  have 7: "''b'' \<in> set (columns (cur (init [example_frame] 0)))" by code_simp
  have 8: "run sample_pandas drop_example [example_frame] 0
            = Ok (engine_of (run sample_pandas drop_example [example_frame] 0))"
    by code_simp
  show ?thesis by (rule drop_short_circuits [OF 1 2 3 4 5 6 7 8])
qed

end
